theory Spec2Isabelle
  imports Main "HOL-Library.Sublist"
begin

section \<open>ECMAScript values and string primitives used by App.vue\<close>

text \<open>
  A string is a list of code units. The model covers the code units 0..255 (Latin-1),
  which is what \<open>char\<close> holds. \<open>toLowerCase\<close> maps A..Z and the upper-case Latin-1
  letters (0xC0..0xDE without the multiplication sign 0xD7) to the letter 32 places up
  and leaves every other code unit alone. \<open>trim\<close> strips white space and line
  terminators from both ends: tab, line feed, vertical tab, form feed, carriage
  return, space and the no-break space.
\<close>

definition toLowerCaseChar :: "char \<Rightarrow> char" where
  "toLowerCaseChar c =
     (let n = (of_char c :: nat)
      in if (65 \<le> n \<and> n \<le> 90) \<or> (192 \<le> n \<and> n \<le> 222 \<and> n \<noteq> 215)
         then char_of (n + 32) else c)"

definition toLowerCase :: "string \<Rightarrow> string" where
  "toLowerCase s = map toLowerCaseChar s"

definition isWhiteSpace :: "char \<Rightarrow> bool" where
  "isWhiteSpace c = List.member [9, 10, 11, 12, 13, 32, 160] (of_char c :: nat)"

definition trim :: "string \<Rightarrow> string" where
  "trim s = rev (dropWhile isWhiteSpace (rev (dropWhile isWhiteSpace s)))"

text \<open>\<open>s.includes(search)\<close>: \<open>search\<close> occurs in \<open>s\<close> as a contiguous run.\<close>

fun str_includes :: "string \<Rightarrow> string \<Rightarrow> bool" where
  "str_includes [] search = (search = [])"
| "str_includes (c # cs) search = (prefix search (c # cs) \<or> str_includes cs search)"

text \<open>
  The decimal rendering of an array index, as a template literal and \<open>String\<close>
  produce it for a non-negative integer.
\<close>

definition digitChar :: "nat \<Rightarrow> char" where
  "digitChar d = char_of (48 + d)"

function numberToString :: "nat \<Rightarrow> string" where
  "numberToString n =
     (if n < 10 then [digitChar n]
      else numberToString (n div 10) @ [digitChar (n mod 10)])"
  by pat_completeness auto
termination
  by (relation "measure (\<lambda>n. n)") auto

declare numberToString.simps [simp del]

text \<open>
  A number, as \<open>Number::toString\<close> of the language specification reads it: not a
  number, an infinity with its sign, a zero, or a finite non-zero number given by its
  sign, the integer \<open>s\<close> of its shortest decimal digits and the exponent \<open>n\<close> with
  value \<open>s * 10 ^ (n - k)\<close>, \<open>k\<close> the number of digits of \<open>s\<close>. So 42 is
  \<open>NumFinite False 42 2\<close>, a half is \<open>NumFinite False 5 0\<close> and 1e21 is
  \<open>NumFinite False 1 22\<close>.
\<close>

datatype number = NumNaN | NumInfinity bool | NumZero | NumFinite bool nat int

text \<open>
  \<open>Number::toString\<close> in radix 10: plain digits with trailing zeros up to 21 integer
  digits, a decimal point inside the digits, a leading \<open>0.\<close> down to 1e-6, and
  the exponent form otherwise.
\<close>

definition exponentPart :: "int \<Rightarrow> string" where
  "exponentPart e =
     CHR ''e'' # (if 0 \<le> e then CHR ''+'' else CHR ''-'') # numberToString (nat \<bar>e\<bar>)"

definition finiteToString :: "nat \<Rightarrow> int \<Rightarrow> string" where
  "finiteToString s n =
     (let ds = numberToString s; k = int (length ds)
      in if k \<le> n \<and> n \<le> 21 then ds @ replicate (nat (n - k)) CHR ''0''
         else if 0 < n \<and> n \<le> 21 then take (nat n) ds @ ''.'' @ drop (nat n) ds
         else if - 6 < n \<and> n \<le> 0 then ''0.'' @ replicate (nat (- n)) CHR ''0'' @ ds
         else if k = 1 then ds @ exponentPart (n - 1)
         else take 1 ds @ ''.'' @ drop 1 ds @ exponentPart (n - 1))"

fun Number_toString :: "number \<Rightarrow> string" where
  "Number_toString NumNaN = ''NaN''"
| "Number_toString (NumInfinity negative) = (if negative then ''-Infinity'' else ''Infinity'')"
| "Number_toString NumZero = ''0''"
| "Number_toString (NumFinite negative s n) =
     (if negative then CHR ''-'' # finiteToString s n else finiteToString s n)"

text \<open>
  The values that a property of a record read from JSON can hold at run time, and so
  the arguments that \<open>toComparable\<close> receives: \<open>undefined\<close> for a missing property,
  \<open>null\<close>, a string, a boolean, a number, an array of such values, or a plain
  object. The code never reads a property of such an object, so \<open>JObject\<close> carries
  none. An object with a property of its own named \<open>toString\<close>, on which \<open>String\<close>
  throws, is not modelled, and neither are the values that JSON cannot hold
  (functions, symbols, big integers).
\<close>

datatype jsval =
  JUndefined | JNull | JString string | JBoolean bool | JNumber number
  | JArray "jsval list" | JObject

fun typeof :: "jsval \<Rightarrow> string" where
  "typeof JUndefined = ''undefined''"
| "typeof JNull = ''object''"
| "typeof (JString s) = ''string''"
| "typeof (JBoolean b) = ''boolean''"
| "typeof (JNumber n) = ''number''"
| "typeof (JArray xs) = ''object''"
| "typeof JObject = ''object''"

text \<open>\<open>v != null\<close> (loose inequality): false for \<open>null\<close> and \<open>undefined\<close> only.\<close>

fun notNullish :: "jsval \<Rightarrow> bool" where
  "notNullish JUndefined = False"
| "notNullish JNull = False"
| "notNullish v = True"

text \<open>
  \<open>String(v)\<close>. An array is joined with commas, as \<open>Array.prototype.join\<close> does:
  \<open>null\<close> and \<open>undefined\<close> elements give the empty string, the others their \<open>String\<close>.
\<close>

fun joinWith :: "string \<Rightarrow> string list \<Rightarrow> string" where
  "joinWith sep [] = []"
| "joinWith sep [x] = x"
| "joinWith sep (x # y # ys) = x @ sep @ joinWith sep (y # ys)"

fun String_js :: "jsval \<Rightarrow> string" where
  "String_js JUndefined = ''undefined''"
| "String_js JNull = ''null''"
| "String_js (JString s) = s"
| "String_js (JBoolean b) = (if b then ''true'' else ''false'')"
| "String_js (JNumber n) = Number_toString n"
| "String_js (JArray xs) =
     joinWith '','' (map (\<lambda>x. if notNullish x then String_js x else []) xs)"
| "String_js JObject = ''[object Object]''"

text \<open>\<open>v ?? d\<close>.\<close>

definition nullishCoalesce :: "jsval \<Rightarrow> jsval \<Rightarrow> jsval" where
  "nullishCoalesce v d = (if notNullish v then v else d)"

section \<open>The data model of App.vue\<close>

text \<open>
  \<open>MetricBase\<close> (lines 5-15) is a record of a category's JSON file and \<open>Metric\<close>
  (line 17) adds the \<open>id\<close>. The declared types say \<open>string\<close>, but the values come
  from JSON unchecked, so a field holds any \<open>jsval\<close>.
\<close>

record MetricBase =
  Category :: jsval
  SubCategory :: jsval
  MetricTitle :: jsval
  MetricDescription :: jsval
  ReportPeriod :: jsval
  Target :: jsval
  Comment :: jsval
  Contributor :: jsval
  Source :: jsval

record Metric = MetricBase +
  id_m :: string

text \<open>\<open>keyof Metric\<close>, the property names, and the property read \<open>metric[field]\<close>.\<close>

datatype MetricKey =
  K_id | K_Category | K_SubCategory | K_MetricTitle | K_MetricDescription
  | K_ReportPeriod | K_Target | K_Comment | K_Contributor | K_Source


fun getField :: "Metric \<Rightarrow> MetricKey \<Rightarrow> jsval" where
  "getField metric K_id = JString (id_m metric)"
| "getField metric K_Category = Category metric"
| "getField metric K_SubCategory = SubCategory metric"
| "getField metric K_MetricTitle = MetricTitle metric"
| "getField metric K_MetricDescription = MetricDescription metric"
| "getField metric K_ReportPeriod = ReportPeriod metric"
| "getField metric K_Target = Target metric"
| "getField metric K_Comment = Comment metric"
| "getField metric K_Contributor = Contributor metric"
| "getField metric K_Source = Source metric"

text \<open>
  \<open>CategoryMeta\<close> (lines 19-24), \<open>CategoryEntry\<close> (line 26) and the entries that
  \<open>filteredCategories\<close> returns, which spread a \<open>CategoryEntry\<close> and add \<open>matchCount\<close>.
\<close>

record CategoryMeta =
  category :: string
  slug :: string
  file_m :: string
  count :: int

record CategoryEntry = CategoryMeta +
  items :: "Metric list"

record FilteredCategory = CategoryEntry +
  matchCount :: int

section \<open>The catalog loader\<close>

text \<open>\<open>hydrateMetric\<close>, lines 32-43.\<close>

definition hydrateMetric :: "MetricBase \<Rightarrow> string \<Rightarrow> nat \<Rightarrow> Metric" where
  "hydrateMetric metric slg index =
     \<lparr> Category = nullishCoalesce (Category metric) (JString []),
       SubCategory = nullishCoalesce (SubCategory metric) JNull,
       MetricTitle = nullishCoalesce (MetricTitle metric) (JString []),
       MetricDescription = nullishCoalesce (MetricDescription metric) (JString []),
       ReportPeriod = nullishCoalesce (ReportPeriod metric) (JString []),
       Target = nullishCoalesce (Target metric) (JString []),
       Comment = nullishCoalesce (Comment metric) (JString []),
       Contributor = nullishCoalesce (Contributor metric) (JString []),
       Source = nullishCoalesce (Source metric) (JString []),
       id_m = slg @ ''-'' @ numberToString index \<rparr>"

text \<open>
  \<open>initialCategories\<close>, lines 45-55: \<open>loadCategory\<close> is the function that the source
  maps over the manifest \<open>metricsIndex\<close>. \<open>modules\<close> is the result of the eager glob
  import (lines 28-30): a dictionary from the path of a JSON file to the array it
  exports. A key that is not there reads as \<open>undefined\<close>, and
  \<open>module?.default ?? []\<close> is then the empty array. The spread \<open>...meta\<close> copies the
  manifest entry, and \<open>count\<close> is then overwritten with \<open>items.length\<close>.
\<close>

definition moduleKey :: "string \<Rightarrow> string" where
  "moduleKey slg = ''./data/metrics/'' @ slg @ ''.json''"

definition loadCategory :: "(string \<rightharpoonup> MetricBase list) \<Rightarrow> CategoryMeta \<Rightarrow> CategoryEntry" where
  "loadCategory modules meta =
     (let rawItems = (case modules (moduleKey (slug meta)) of None \<Rightarrow> [] | Some d \<Rightarrow> d);
          its = map (\<lambda>(itemIndex, item). hydrateMetric item (slug meta) itemIndex)
                  (enumerate 0 rawItems)
      in \<lparr> category = category meta, slug = slug meta, file_m = file_m meta,
           count = int (length its), items = its \<rparr>)"

definition initialCategories ::
  "CategoryMeta list \<Rightarrow> (string \<rightharpoonup> MetricBase list) \<Rightarrow> CategoryEntry list" where
  "initialCategories metricsIndex modules = map (loadCategory modules) metricsIndex"

section \<open>The view state\<close>

text \<open>The refs of lines 57-60, as one record.\<close>

record AppState =
  categories :: "CategoryEntry list"
  searchQuery :: string
  selectedCategory :: string
  isSidebarOpen :: bool

definition initialState :: "CategoryMeta list \<Rightarrow> (string \<rightharpoonup> MetricBase list) \<Rightarrow> AppState" where
  "initialState metricsIndex modules =
     (let cats = initialCategories metricsIndex modules
      in \<lparr> categories = cats, searchQuery = [],
           selectedCategory = (case cats of [] \<Rightarrow> [] | c # _ \<Rightarrow> category c),
           isSidebarOpen = False \<rparr>)"

section \<open>The search engine of App.vue\<close>

definition searchableFields :: "MetricKey list" where
  "searchableFields =
     [K_MetricTitle, K_MetricDescription, K_Category, K_SubCategory, K_ReportPeriod,
      K_Target, K_Comment, K_Contributor, K_Source]"

text \<open>
  \<open>toComparable\<close>, lines 74-75: a string is lower-cased, any other value that is
  neither \<open>null\<close> nor \<open>undefined\<close> is converted with \<open>String\<close> and lower-cased, and
  the rest is the empty string.
\<close>

definition toComparable :: "jsval \<Rightarrow> string" where
  "toComparable input =
     (if typeof input = ''string''
      then (case input of JString s \<Rightarrow> toLowerCase s | _ \<Rightarrow> [])
      else if notNullish input then toLowerCase (String_js input) else [])"

text \<open>\<open>matchesSearch\<close>, lines 77-81. The empty string is the only falsy string.\<close>

definition matchesSearch :: "Metric \<Rightarrow> string \<Rightarrow> bool" where
  "matchesSearch metric query =
     (if query = [] then True
      else (let normalizedQuery = toLowerCase query
            in list_ex (\<lambda>field. str_includes (toComparable (getField metric field)) normalizedQuery)
                 searchableFields))"

text \<open>\<open>allMetrics\<close>, line 83.\<close>

definition allMetrics :: "AppState \<Rightarrow> Metric list" where
  "allMetrics st = concat (map items (categories st))"

text \<open>\<open>filteredCategories\<close>, lines 85-98.\<close>

definition filteredCategories :: "AppState \<Rightarrow> FilteredCategory list" where
  "filteredCategories st =
     (let query = toLowerCase (trim (searchQuery st))
      in filter (\<lambda>c. if query \<noteq> [] then matchCount c > 0 else count c > 0)
           (map (\<lambda>c.
                  (let mc = (if query \<noteq> []
                             then int (length (filter (\<lambda>metric. matchesSearch metric query) (items c)))
                             else count c)
                   in \<lparr> category = category c, slug = slug c, file_m = file_m c, count = count c,
                        items = items c, matchCount = mc \<rparr>))
              (categories st)))"

text \<open>
  The body of the effect of lines 100-104 as a function on the state: it writes
  \<open>selectedCategory\<close> when no visible category has the selected display name.
  \<open>filteredCategories.value[0]?.category ?? ''\<close> is the name of the first visible
  category, or the empty string when there is none.
\<close>

definition watchEffect :: "AppState \<Rightarrow> AppState" where
  "watchEffect st =
     (if \<not> list_ex (\<lambda>c. category c = selectedCategory st) (filteredCategories st)
      then st \<lparr> selectedCategory :=
                  (case filteredCategories st of [] \<Rightarrow> [] | c # _ \<Rightarrow> category c) \<rparr>
      else st)"

text \<open>\<open>displayMetrics\<close>, lines 106-114.\<close>

definition displayMetrics :: "AppState \<Rightarrow> Metric list" where
  "displayMetrics st =
     (let query = toLowerCase (trim (searchQuery st))
      in if query \<noteq> [] then filter (\<lambda>metric. matchesSearch metric query) (allMetrics st)
         else (case find (\<lambda>c. category c = selectedCategory st) (categories st) of
                 None \<Rightarrow> []
               | Some c \<Rightarrow> items c))"

section \<open>The detail rows of a metric\<close>







section \<open>Example data\<close>

text \<open>A raw record with every property missing or \<open>null\<close>.\<close>

definition absentRecord :: MetricBase where
  "absentRecord =
     \<lparr> Category = JUndefined, SubCategory = JUndefined, MetricTitle = JUndefined,
       MetricDescription = JUndefined, ReportPeriod = JNull, Target = JUndefined,
       Comment = JNull, Contributor = JUndefined, Source = JUndefined \<rparr>"

text \<open>A raw record that has a category and a title and nothing else.\<close>

definition titled :: "string \<Rightarrow> string \<Rightarrow> MetricBase" where
  "titled cat title =
     \<lparr> Category = JString cat, SubCategory = JUndefined, MetricTitle = JString title,
       MetricDescription = JUndefined, ReportPeriod = JUndefined, Target = JUndefined,
       Comment = JUndefined, Contributor = JUndefined, Source = JUndefined \<rparr>"

text \<open>
  A manifest of three categories and the JSON files of the first two: Governance with
  two records, Incident Response with one, and Threat Hunting, declared with seven
  records, whose file does not exist.
\<close>

definition exampleIndex :: "CategoryMeta list" where
  "exampleIndex =
     [\<lparr> category = ''Governance'', slug = ''governance'',
         file_m = ''governance.json'', count = 2 \<rparr>,
      \<lparr> category = ''Incident Response'', slug = ''incident-response'',
         file_m = ''incident-response.json'', count = 1 \<rparr>,
      \<lparr> category = ''Threat Hunting'', slug = ''threat-hunting'',
         file_m = ''threat-hunting.json'', count = 7 \<rparr>]"

definition exampleModules :: "string \<rightharpoonup> MetricBase list" where
  "exampleModules =
     map_of
       [(''./data/metrics/governance.json'',
           [titled ''Governance'' ''Board Reporting Cadence'',
            titled ''Governance'' ''Policy Review Rate'']),
        (''./data/metrics/incident-response.json'',
           [titled ''Incident Response'' ''Mean Time to Contain''])]"

text \<open>The three records of the example catalog after hydration, and its categories.\<close>

definition exampleMetric :: "string \<Rightarrow> string \<Rightarrow> string \<Rightarrow> Metric" where
  "exampleMetric cat title ident =
     \<lparr> Category = JString cat, SubCategory = JNull, MetricTitle = JString title,
       MetricDescription = JString [], ReportPeriod = JString [], Target = JString [],
       Comment = JString [], Contributor = JString [], Source = JString [],
       id_m = ident \<rparr>"

definition exampleCatalog :: "CategoryEntry list" where
  "exampleCatalog =
     [\<lparr> category = ''Governance'', slug = ''governance'',
         file_m = ''governance.json'', count = 2,
         items = [exampleMetric ''Governance'' ''Board Reporting Cadence'' ''governance-0'',
                  exampleMetric ''Governance'' ''Policy Review Rate'' ''governance-1''] \<rparr>,
      \<lparr> category = ''Incident Response'', slug = ''incident-response'',
         file_m = ''incident-response.json'', count = 1,
         items = [exampleMetric ''Incident Response'' ''Mean Time to Contain''
                    ''incident-response-0''] \<rparr>,
      \<lparr> category = ''Threat Hunting'', slug = ''threat-hunting'',
         file_m = ''threat-hunting.json'', count = 0, items = [] \<rparr>]"

definition exampleState :: "string \<Rightarrow> string \<Rightarrow> AppState" where
  "exampleState query selected =
     \<lparr> categories = exampleCatalog, searchQuery = query, selectedCategory = selected,
       isSidebarOpen = False \<rparr>"



text \<open>
  A manifest that gives two slugs the same display name, and a state on the catalog
  loaded from it.
\<close>

definition duplicateIndex :: "CategoryMeta list" where
  "duplicateIndex =
     [\<lparr> category = ''Governance'', slug = ''governance'',
         file_m = ''governance.json'', count = 2 \<rparr>,
      \<lparr> category = ''Governance'', slug = ''incident-response'',
         file_m = ''incident-response.json'', count = 1 \<rparr>]"

definition duplicateState :: "string \<Rightarrow> string \<Rightarrow> AppState" where
  "duplicateState query selected =
     \<lparr> categories = initialCategories duplicateIndex exampleModules, searchQuery = query,
       selectedCategory = selected, isSidebarOpen = False \<rparr>"

section \<open>Facts about the string primitives\<close>

lemma toLowerCase_Nil_iff: "toLowerCase s = [] \<longleftrightarrow> s = []"
  by (simp add: toLowerCase_def)

lemma numberToString_not_Nil: "numberToString n \<noteq> []"
  by (subst numberToString.simps) simp

lemma str_includes_iff: "str_includes s search \<longleftrightarrow> (\<exists>ps ss. s = ps @ search @ ss)"
proof (induction s)
  case Nil
  then show ?case by auto
next
  case (Cons c cs)
  show ?case
  proof
    assume "str_includes (c # cs) search"
    then consider "prefix search (c # cs)" | "str_includes cs search" by auto
    then show "\<exists>ps ss. c # cs = ps @ search @ ss"
    proof cases
      case 1
      then obtain ss where "c # cs = search @ ss" by (auto simp: prefix_def)
      then have "c # cs = [] @ search @ ss" by simp
      then show ?thesis by blast
    next
      case 2
      with Cons.IH obtain ps ss where "cs = ps @ search @ ss" by blast
      then have "c # cs = (c # ps) @ search @ ss" by simp
      then show ?thesis by blast
    qed
  next
    assume "\<exists>ps ss. c # cs = ps @ search @ ss"
    then obtain ps ss where e: "c # cs = ps @ search @ ss" by blast
    show "str_includes (c # cs) search"
    proof (cases ps)
      case Nil
      with e have "prefix search (c # cs)" by (simp add: prefix_def)
      then show ?thesis by simp
    next
      case (Cons p ps')
      with e have "cs = ps' @ search @ ss" by simp
      with Cons.IH have "str_includes cs search" by blast
      then show ?thesis by simp
    qed
  qed
qed

lemma toLowerCaseChar_idem: "toLowerCaseChar (toLowerCaseChar c) = toLowerCaseChar c"
  by (auto simp: toLowerCaseChar_def Let_def)

lemma toLowerCase_idem: "toLowerCase (toLowerCase s) = toLowerCase s"
  by (simp add: toLowerCase_def toLowerCaseChar_idem)

lemma toComparable_Nil_iff:
  "toComparable v = [] \<longleftrightarrow> v = JNull \<or> v = JUndefined \<or> String_js v = []"
  by (cases v) (simp_all add: toComparable_def toLowerCase_Nil_iff del: String_js.simps(5,6))

lemma digitChar_inj: "a < 10 \<Longrightarrow> b < 10 \<Longrightarrow> digitChar a = digitChar b \<Longrightarrow> a = b"
proof -
  assume a: "a < 10" and b: "b < 10" and e: "digitChar a = digitChar b"
  from e have "(of_char (digitChar a) :: nat) = of_char (digitChar b)" by simp
  with a b show "a = b" by (simp add: digitChar_def)
qed

lemma digitChar_not_dash: "d < 10 \<Longrightarrow> digitChar d \<noteq> CHR ''-''"
proof
  assume d: "d < 10" and e: "digitChar d = CHR ''-''"
  from e have "(of_char (digitChar d) :: nat) = of_char (CHR ''-'')" by simp
  with d show False by (simp add: digitChar_def)
qed

lemma numberToString_no_dash: "CHR ''-'' \<notin> set (numberToString n)"
proof (induction n rule: numberToString.induct)
  case (1 n)
  show ?case
  proof (cases "n < 10")
    case True
    then show ?thesis
      using digitChar_not_dash [of n] by (subst numberToString.simps) auto
  next
    case False
    have "n mod 10 < 10" by simp
    then have "digitChar (n mod 10) \<noteq> CHR ''-''" by (rule digitChar_not_dash)
    with False "1.IH" show ?thesis
      by (subst numberToString.simps) auto
  qed
qed

lemma numberToString_length: "\<not> n < 10 \<Longrightarrow> 2 \<le> length (numberToString n)"
proof -
  assume n: "\<not> n < 10"
  have "numberToString (n div 10) \<noteq> []" by (rule numberToString_not_Nil)
  then have "1 \<le> length (numberToString (n div 10))"
    by (cases "numberToString (n div 10)") auto
  with n show ?thesis by (subst numberToString.simps) simp
qed

lemma numberToString_inj: "numberToString n = numberToString m \<Longrightarrow> n = m"
proof (induction n arbitrary: m rule: numberToString.induct)
  case (1 n)
  show ?case
  proof (cases "n < 10")
    case n: True
    show ?thesis
    proof (cases "m < 10")
      case True
      with n "1.prems" have "digitChar n = digitChar m"
        by (simp add: numberToString.simps [of n] numberToString.simps [of m])
      with n True show ?thesis by (rule digitChar_inj)
    next
      case False
      then have "2 \<le> length (numberToString m)" by (rule numberToString_length)
      moreover from n have "length (numberToString n) = 1"
        by (simp add: numberToString.simps [of n])
      ultimately show ?thesis using "1.prems" by simp
    qed
  next
    case n: False
    show ?thesis
    proof (cases "m < 10")
      case True
      then have "length (numberToString m) = 1"
        by (simp add: numberToString.simps [of m])
      moreover from n have "2 \<le> length (numberToString n)" by (rule numberToString_length)
      ultimately show ?thesis using "1.prems" by simp
    next
      case False
      with n "1.prems" have e: "numberToString (n div 10) = numberToString (m div 10)"
        and d: "digitChar (n mod 10) = digitChar (m mod 10)"
        by (simp_all add: numberToString.simps [of n] numberToString.simps [of m])
      from n e have "n div 10 = m div 10" by (rule "1.IH")
      moreover have "n mod 10 = m mod 10"
        using d by (intro digitChar_inj) simp_all
      ultimately show ?thesis by (metis div_mult_mod_eq)
    qed
  qed
qed

lemma split_at_last:
  assumes "s1 @ c # d1 = s2 @ c # d2" and "c \<notin> set d1" and "c \<notin> set d2"
  shows "s1 = s2 \<and> d1 = d2"
  using assms
  by (auto simp: append_eq_append_conv2 append_eq_Cons_conv Cons_eq_append_conv)

lemma id_inj:
  assumes "s1 @ ''-'' @ numberToString i = s2 @ ''-'' @ numberToString j"
  shows "s1 = s2 \<and> i = j"
proof -
  from assms have "s1 @ CHR ''-'' # numberToString i = s2 @ CHR ''-'' # numberToString j"
    by simp
  then have "s1 = s2 \<and> numberToString i = numberToString j"
    by (rule split_at_last) (rule numberToString_no_dash)+
  then show ?thesis by (auto dest: numberToString_inj)
qed

section \<open>Facts about the loader\<close>

lemma nullishCoalesce_cases:
  "nullishCoalesce JNull d = d" "nullishCoalesce JUndefined d = d"
  "notNullish v \<Longrightarrow> nullishCoalesce v d = v"
  by (simp_all add: nullishCoalesce_def)

lemma notNullish_iff: "notNullish v \<longleftrightarrow> v \<noteq> JNull \<and> v \<noteq> JUndefined"
  by (cases v) simp_all

lemma nullishCoalesce_string: "nullishCoalesce v (JString s) \<noteq> JNull \<and> nullishCoalesce v (JString s) \<noteq> JUndefined"
  by (cases v) (simp_all add: nullishCoalesce_def)

lemma nullishCoalesce_not_undefined: "nullishCoalesce v JNull \<noteq> JUndefined"
  by (cases v) (simp_all add: nullishCoalesce_def)

lemma items_loadCategory:
  "items (loadCategory modules meta) =
     map (\<lambda>(itemIndex, item). hydrateMetric item (slug meta) itemIndex)
       (enumerate 0 (case modules (moduleKey (slug meta)) of None \<Rightarrow> [] | Some d \<Rightarrow> d))"
  by (simp add: loadCategory_def Let_def)

lemma meta_loadCategory:
  "category (loadCategory modules meta) = category meta"
  "slug (loadCategory modules meta) = slug meta"
  "file_m (loadCategory modules meta) = file_m meta"
  "count (loadCategory modules meta) = int (length (items (loadCategory modules meta)))"
  by (simp_all add: loadCategory_def Let_def)

lemma length_items_loadCategory:
  "length (items (loadCategory modules meta)) =
     length (case modules (moduleKey (slug meta)) of None \<Rightarrow> [] | Some d \<Rightarrow> d)"
  by (simp add: items_loadCategory)

lemma nth_items_loadCategory:
  assumes "i < length (items (loadCategory modules meta))"
  shows "items (loadCategory modules meta) ! i =
     hydrateMetric ((case modules (moduleKey (slug meta)) of None \<Rightarrow> [] | Some d \<Rightarrow> d) ! i)
       (slug meta) i"
  using assms by (simp add: items_loadCategory nth_enumerate_eq)

lemma id_hydrateMetric: "id_m (hydrateMetric raw slg i) = slg @ ''-'' @ numberToString i"
  by (simp add: hydrateMetric_def)

lemma ids_loadCategory:
  "map id_m (items (loadCategory modules meta)) =
     map (\<lambda>i. slug meta @ ''-'' @ numberToString i)
       [0..<length (items (loadCategory modules meta))]"
  by (rule nth_equalityI) (simp_all add: nth_items_loadCategory id_hydrateMetric)

lemma distinct_ids_loadCategory: "distinct (map id_m (items (loadCategory modules meta)))"
proof -
  have "inj_on (\<lambda>i. slug meta @ ''-'' @ numberToString i) (set [0..<n])" for n
    by (rule inj_onI) (drule id_inj, simp)
  then show ?thesis
    by (subst ids_loadCategory) (simp add: distinct_map)
qed

lemma id_in_loadCategory:
  assumes "x \<in> set (map id_m (items (loadCategory modules meta)))"
  shows "\<exists>i. x = slug meta @ ''-'' @ numberToString i"
  using assms by (subst (asm) ids_loadCategory) auto

lemma distinct_ids_categories:
  assumes "distinct (map slug metricsIndex)"
  shows "distinct (map id_m (concat (map items (map (loadCategory modules) metricsIndex))))"
  using assms
proof (induction metricsIndex)
  case Nil
  then show ?case by simp
next
  case (Cons meta rest)
  have disjoint: "set (map id_m (items (loadCategory modules meta))) \<inter>
        set (map id_m (concat (map items (map (loadCategory modules) rest)))) = {}"
  proof (rule ccontr)
    assume "\<not> ?thesis"
    then obtain x where x1: "x \<in> set (map id_m (items (loadCategory modules meta)))"
      and x2: "x \<in> set (map id_m (concat (map items (map (loadCategory modules) rest))))"
      by blast
    from x2 obtain meta' where m': "meta' \<in> set rest"
      and x3: "x \<in> set (map id_m (items (loadCategory modules meta')))"
      by auto
    from x1 obtain i where "x = slug meta @ ''-'' @ numberToString i"
      by (blast dest: id_in_loadCategory)
    moreover from x3 obtain j where "x = slug meta' @ ''-'' @ numberToString j"
      by (blast dest: id_in_loadCategory)
    ultimately have "slug meta @ ''-'' @ numberToString i = slug meta' @ ''-'' @ numberToString j"
      by (rule trans [OF sym])
    then have "slug meta = slug meta'" by (rule id_inj [THEN conjunct1])
    with m' Cons.prems show False by auto
  qed
  from Cons have "distinct (map id_m (concat (map items (map (loadCategory modules) rest))))"
    by simp
  with disjoint distinct_ids_loadCategory [of modules meta] show ?case
    by (simp del: set_map set_concat)
qed

section \<open>Facts about the search engine\<close>

lemma find_first_index:
  assumes "k < length xs" and "P (xs ! k)" and "\<forall>j<k. \<not> P (xs ! j)"
  shows "find P xs = Some (xs ! k)"
  using assms by (subst find_Some_iff) blast

lemma items_filteredCategories:
  assumes "e \<in> set (filteredCategories st)"
  shows "\<exists>c \<in> set (categories st). items e = items c \<and> count e = count c
           \<and> category e = category c \<and> slug e = slug c
           \<and> (if toLowerCase (trim (searchQuery st)) \<noteq> []
               then 0 < length (filter (\<lambda>m. matchesSearch m (toLowerCase (trim (searchQuery st)))) (items c))
               else 0 < count c)"
  using assms by (auto simp: filteredCategories_def Let_def split: if_splits)

lemma watchEffect_frame:
  "categories (watchEffect st) = categories st"
  "searchQuery (watchEffect st) = searchQuery st"
  "isSidebarOpen (watchEffect st) = isSidebarOpen st"
  by (simp_all add: watchEffect_def)

lemma filteredCategories_cong:
  "categories st' = categories st \<Longrightarrow> searchQuery st' = searchQuery st
     \<Longrightarrow> filteredCategories st' = filteredCategories st"
  by (simp add: filteredCategories_def)

lemma selected_watchEffect:
  "selectedCategory (watchEffect st) =
     (if selectedCategory st \<in> set (map category (filteredCategories st))
      then selectedCategory st
      else (case filteredCategories st of [] \<Rightarrow> [] | c # _ \<Rightarrow> category c))"
proof (cases "\<exists>c \<in> set (filteredCategories st). category c = selectedCategory st")
  case True
  then have "selectedCategory st \<in> set (map category (filteredCategories st))" by force
  with True show ?thesis by (simp add: watchEffect_def list_ex_iff)
next
  case False
  then have "selectedCategory st \<notin> set (map category (filteredCategories st))" by force
  with False show ?thesis by (simp add: watchEffect_def list_ex_iff)
qed

section \<open>Facts about the detail rows\<close>














section \<open>The displayed records\<close>

text \<open>
  C1. For every catalog, query and selected category: when the trimmed query is not
  empty, \<open>displayMetrics\<close> is the concatenation of the items of all categories, in
  catalog order, filtered by \<open>matchesSearch\<close> on the trimmed, lower-cased query, and a
  change of the selected category does not change it; when the trimmed query is
  empty, it is the items of the first category whose display name is the selected
  one, and the empty list when no category has that name.
\<close>

theorem displayMetrics_spec:
  "(trim (searchQuery st) \<noteq> [] \<longrightarrow>
      displayMetrics st =
        filter (\<lambda>m. matchesSearch m (toLowerCase (trim (searchQuery st))))
          (concat (map items (categories st)))
      \<and> displayMetrics (st \<lparr> selectedCategory := other \<rparr>) = displayMetrics st)
   \<and> (trim (searchQuery st) = [] \<longrightarrow>
        (\<forall>k < length (categories st).
            category (categories st ! k) = selectedCategory st
            \<and> (\<forall>j < k. category (categories st ! j) \<noteq> selectedCategory st)
            \<longrightarrow> displayMetrics st = items (categories st ! k))
        \<and> ((\<forall>c \<in> set (categories st). category c \<noteq> selectedCategory st)
            \<longrightarrow> displayMetrics st = []))"
proof (cases "trim (searchQuery st) = []")
  case True
  then have q: "toLowerCase (trim (searchQuery st)) = []" by (simp add: toLowerCase_Nil_iff)
  have "displayMetrics st = items (categories st ! k)"
    if "k < length (categories st)" "category (categories st ! k) = selectedCategory st"
      "\<forall>j < k. category (categories st ! j) \<noteq> selectedCategory st" for k
  proof -
    from that have "find (\<lambda>c. category c = selectedCategory st) (categories st)
        = Some (categories st ! k)"
      by (intro find_first_index) simp_all
    with q show ?thesis by (simp add: displayMetrics_def)
  qed
  moreover have "displayMetrics st = []"
    if "\<forall>c \<in> set (categories st). category c \<noteq> selectedCategory st"
  proof -
    from that have "find (\<lambda>c. category c = selectedCategory st) (categories st) = None"
      by (simp add: find_None_iff)
    with q show ?thesis by (simp add: displayMetrics_def)
  qed
  ultimately show ?thesis using True by blast
next
  case False
  then have "toLowerCase (trim (searchQuery st)) \<noteq> []" by (simp add: toLowerCase_Nil_iff)
  then have "displayMetrics st =
        filter (\<lambda>m. matchesSearch m (toLowerCase (trim (searchQuery st))))
          (concat (map items (categories st)))"
    "displayMetrics (st \<lparr> selectedCategory := other \<rparr>) = displayMetrics st"
    by (simp_all add: displayMetrics_def allMetrics_def)
  with False show ?thesis by blast
qed

text \<open>
  C1 on the example catalog: the query \<open>Contain\<close> with surrounding blanks shows the one
  matching record whatever is selected; a blank query shows the selected category,
  and nothing for a name that no category has.
\<close>

theorem displayMetrics_spec_witness:
  "trim (searchQuery (exampleState ''  Contain '' ''Governance'')) \<noteq> []
   \<and> map id_m (displayMetrics (exampleState ''  Contain '' ''Governance'')) = [''incident-response-0'']
   \<and> displayMetrics (exampleState ''  Contain '' ''Governance'' \<lparr> selectedCategory := ''Threat Hunting'' \<rparr>)
       = displayMetrics (exampleState ''  Contain '' ''Governance'')
   \<and> trim (searchQuery (exampleState ''  '' ''Incident Response'')) = []
   \<and> displayMetrics (exampleState ''  '' ''Incident Response'') = items (exampleCatalog ! 1)
   \<and> displayMetrics (exampleState ''  '' ''Vulnerability'') = []"
proof -
  have a: "trim (searchQuery (exampleState ''  Contain '' ''Governance'')) \<noteq> []" by code_simp
  have b: "map id_m (filter (\<lambda>m. matchesSearch m
             (toLowerCase (trim (searchQuery (exampleState ''  Contain '' ''Governance'')))))
          (concat (map items (categories (exampleState ''  Contain '' ''Governance'')))))
        = [''incident-response-0'']" by code_simp
  have c: "trim (searchQuery (exampleState ''  '' ''Incident Response'')) = []"
    "trim (searchQuery (exampleState ''  '' ''Vulnerability'')) = []" by code_simp+
  have d: "(1::nat) < length (categories (exampleState ''  '' ''Incident Response''))"
    "category (categories (exampleState ''  '' ''Incident Response'') ! 1)
       = selectedCategory (exampleState ''  '' ''Incident Response'')"
    "category (categories (exampleState ''  '' ''Incident Response'') ! 0)
       \<noteq> selectedCategory (exampleState ''  '' ''Incident Response'')"
    "categories (exampleState ''  '' ''Incident Response'') ! 1 = exampleCatalog ! 1"
    by code_simp+
  have e: "\<forall>c \<in> set (categories (exampleState ''  '' ''Vulnerability'')).
             category c \<noteq> selectedCategory (exampleState ''  '' ''Vulnerability'')"
    by code_simp
  have f: "\<forall>j < (1::nat). category (categories (exampleState ''  '' ''Incident Response'') ! j)
       \<noteq> selectedCategory (exampleState ''  '' ''Incident Response'')"
    using d(3) by simp
  note t1 = displayMetrics_spec [of "exampleState ''  Contain '' ''Governance''" "''Threat Hunting''"]
  note t2 = displayMetrics_spec [of "exampleState ''  '' ''Incident Response''"]
  note t3 = displayMetrics_spec [of "exampleState ''  '' ''Vulnerability''"]
  from t1 a b have g1: "map id_m (displayMetrics (exampleState ''  Contain '' ''Governance'')) = [''incident-response-0'']"
    "displayMetrics (exampleState ''  Contain '' ''Governance'' \<lparr> selectedCategory := ''Threat Hunting'' \<rparr>)
       = displayMetrics (exampleState ''  Contain '' ''Governance'')"
    by simp_all
  from t2 c(1) d f have g2: "displayMetrics (exampleState ''  '' ''Incident Response'') = items (exampleCatalog ! 1)"
    by metis
  from t3 c(2) e have g3: "displayMetrics (exampleState ''  '' ''Vulnerability'') = []"
    by blast
  from a g1 c(1) g2 g3 show ?thesis by blast
qed

section \<open>The visible categories\<close>

text \<open>
  C2. For every catalog and query, with \<open>q\<close> the trimmed, lower-cased query,
  \<open>filteredCategories\<close> returns, in catalog order, exactly the categories that pass
  the test of the two cases: when \<open>q\<close> is not empty, some record of the category
  matches (\<open>matchCount > 0\<close>), and when \<open>q\<close> is empty, \<open>count > 0\<close>. Each entry copies
  the category and adds \<open>matchCount\<close>, the number of matching records when \<open>q\<close> is
  not empty and \<open>count\<close> when it is. \<open>q\<close> is empty exactly when the trimmed query is.
  When every \<open>count\<close> is the length of \<open>items\<close>, as in every catalog that
  \<open>initialCategories\<close> builds, no returned category has zero records, for any query.
\<close>

theorem filteredCategories_spec:
  assumes "q = toLowerCase (trim (searchQuery st))"
  shows "filteredCategories st =
           map (\<lambda>c. \<lparr> category = category c, slug = slug c, file_m = file_m c, count = count c,
                      items = items c,
                      matchCount =
                        (if q \<noteq> [] then int (length (filter (\<lambda>m. matchesSearch m q) (items c)))
                         else count c) \<rparr>)
             (filter (\<lambda>c. (q \<noteq> [] \<longrightarrow> 0 < length (filter (\<lambda>m. matchesSearch m q) (items c)))
                         \<and> (q = [] \<longrightarrow> 0 < count c))
                (categories st))
         \<and> (q = [] \<longleftrightarrow> trim (searchQuery st) = [])
         \<and> ((\<forall>c \<in> set (categories st). count c = int (length (items c)))
              \<longrightarrow> (\<forall>e \<in> set (filteredCategories st). items e \<noteq> []))
         \<and> (categories st = initialCategories metricsIndex modules
              \<longrightarrow> (\<forall>e \<in> set (filteredCategories st). items e \<noteq> []))"
  (is "?eq \<and> ?qn \<and> ?inv \<and> ?loaded")
proof -
  have eq: ?eq
    unfolding filteredCategories_def Let_def assms [symmetric]
    by (cases "q = []") (simp_all add: filter_map o_def)
  have qn: ?qn
    unfolding assms by (rule toLowerCase_Nil_iff)
  have inv: ?inv
  proof (intro impI ballI)
    fix e
    assume h: "\<forall>c \<in> set (categories st). count c = int (length (items c))"
      and "e \<in> set (filteredCategories st)"
    then obtain c where c: "c \<in> set (categories st)" "items e = items c"
      and v: "if toLowerCase (trim (searchQuery st)) \<noteq> []
               then 0 < length (filter (\<lambda>m. matchesSearch m (toLowerCase (trim (searchQuery st)))) (items c))
               else 0 < count c"
      by (blast dest: items_filteredCategories)
    from h c have "count c = int (length (items c))" by blast
    with v have "items c \<noteq> []" by (auto split: if_splits)
    with c show "items e \<noteq> []" by simp
  qed
  have loaded: ?loaded
  proof
    assume "categories st = initialCategories metricsIndex modules"
    then have "\<forall>c \<in> set (categories st). count c = int (length (items c))"
      by (auto simp: initialCategories_def meta_loadCategory)
    with inv show "\<forall>e \<in> set (filteredCategories st). items e \<noteq> []" ..
  qed
  from eq qn inv loaded show ?thesis by (intro conjI)
qed

text \<open>
  C2 on the example catalog, which the loader builds from the example manifest: the query
  \<open>contain\<close> leaves Incident Response with one match; the empty query leaves the
  two categories that have records, with their counts.
\<close>

theorem filteredCategories_spec_witness:
  "map category (filteredCategories (exampleState ''contain'' ''Governance'')) = [''Incident Response'']
   \<and> map matchCount (filteredCategories (exampleState ''contain'' ''Governance'')) = [1]
   \<and> map category (filteredCategories (exampleState [] ''Governance''))
       = [''Governance'', ''Incident Response'']
   \<and> map matchCount (filteredCategories (exampleState [] ''Governance'')) = [2, 1]
   \<and> list_all (\<lambda>e. items e \<noteq> []) (filteredCategories (exampleState [] ''Governance''))"
proof -
  define q where "q = toLowerCase (trim (searchQuery (exampleState [] ''Governance'')))"
  have l: "categories (exampleState [] ''Governance'') = initialCategories exampleIndex exampleModules"
    by code_simp
  note t = filteredCategories_spec [OF q_def, of exampleIndex exampleModules]
  have a: "map category (filteredCategories (exampleState ''contain'' ''Governance'')) = [''Incident Response'']"
    by code_simp
  have a': "map matchCount (filteredCategories (exampleState ''contain'' ''Governance'')) = [1]"
    by code_simp
  have b: "map category (filteredCategories (exampleState [] ''Governance''))
       = [''Governance'', ''Incident Response'']"
    by code_simp
  have b': "map matchCount (filteredCategories (exampleState [] ''Governance'')) = [2, 1]"
    by code_simp
  have "items e \<noteq> []" if "e \<in> set (filteredCategories (exampleState [] ''Governance''))" for e
    using t [THEN conjunct2, THEN conjunct2, THEN conjunct2, rule_format, OF l that] .
  then have c: "list_all (\<lambda>e. items e \<noteq> []) (filteredCategories (exampleState [] ''Governance''))"
    unfolding list_all_iff by (rule ballI)
  show ?thesis by (intro conjI) (rule a a' b b' c)+
qed

section \<open>Reconciliation of the selected category\<close>

text \<open>
  C6 as stated fails in its last clause when display names repeat. Take two
  categories with the display name Governance, the second holding the only
  record that matches \<open>contain\<close>: the selection Governance names the first category,
  which the query filters out, and the effect leaves the selection as it is, because
  a visible category has that name.
\<close>

theorem watchEffect_duplicate_name_counterexample:
  "category (categories (duplicateState ''contain'' ''Governance'') ! 0)
     = selectedCategory (duplicateState ''contain'' ''Governance'')
   \<and> slug (categories (duplicateState ''contain'' ''Governance'') ! 0) = ''governance''
   \<and> map slug (filteredCategories (duplicateState ''contain'' ''Governance''))
       = [''incident-response'']
   \<and> selectedCategory (watchEffect (duplicateState ''contain'' ''Governance''))
       = selectedCategory (duplicateState ''contain'' ''Governance'')"
  by code_simp

text \<open>
  C6, amended. For every state, after the effect the selection is the prior selection
  when that name is among the display names of the visible categories, and otherwise
  the display name of the first visible category, or the empty string when none is
  visible. The effect changes neither the catalog nor the query, so the visible
  categories stay the same. A selection that no visible category bears as its name
  is replaced by the first visible name, which differs from it, when a category is
  visible. After the effect the selection is a visible name, or nothing is visible
  and the selection is empty.
\<close>

theorem watchEffect_spec:
  "selectedCategory (watchEffect st) =
     (if selectedCategory st \<in> set (map category (filteredCategories st))
      then selectedCategory st
      else (case filteredCategories st of [] \<Rightarrow> [] | c # _ \<Rightarrow> category c))
   \<and> categories (watchEffect st) = categories st
   \<and> searchQuery (watchEffect st) = searchQuery st
   \<and> filteredCategories (watchEffect st) = filteredCategories st
   \<and> (selectedCategory st \<notin> set (map category (filteredCategories st))
        \<longrightarrow> filteredCategories st \<noteq> []
        \<longrightarrow> selectedCategory (watchEffect st) = category (hd (filteredCategories st))
            \<and> selectedCategory (watchEffect st) \<noteq> selectedCategory st)
   \<and> (selectedCategory (watchEffect st) \<in> set (map category (filteredCategories (watchEffect st)))
        \<or> filteredCategories (watchEffect st) = [] \<and> selectedCategory (watchEffect st) = [])"
  (is "?sel \<and> ?cats \<and> ?query \<and> ?vis \<and> ?replaced \<and> ?inv")
proof -
  have sel: ?sel by (rule selected_watchEffect)
  have cats: ?cats and query: ?query by (rule watchEffect_frame)+
  then have vis: ?vis by (rule filteredCategories_cong)
  have replaced: ?replaced
  proof (intro impI)
    assume n: "selectedCategory st \<notin> set (map category (filteredCategories st))"
      and v: "filteredCategories st \<noteq> []"
    then obtain c cs where c: "filteredCategories st = c # cs"
      by (cases "filteredCategories st") auto
    with n sel have s: "selectedCategory (watchEffect st) = category c" by simp
    from c n have "category c \<noteq> selectedCategory st" by auto
    with s c show "selectedCategory (watchEffect st) = category (hd (filteredCategories st))
            \<and> selectedCategory (watchEffect st) \<noteq> selectedCategory st"
      by simp
  qed
  have inv: ?inv
  proof (cases "selectedCategory st \<in> set (map category (filteredCategories st))")
    case True
    with sel vis show ?thesis by simp
  next
    case False
    show ?thesis
    proof (cases "filteredCategories st")
      case Nil
      with False sel vis show ?thesis by simp
    next
      case (Cons c cs)
      with False sel vis show ?thesis by simp
    qed
  qed
  from sel cats query vis replaced inv show ?thesis by (intro conjI)
qed

text \<open>
  C6, amended, on the example catalog with Governance selected: the query \<open>contain\<close> moves the
  selection to Incident Response, a query without a match empties it, and a selection
  that is still visible stays.
\<close>

theorem watchEffect_spec_witness:
  "selectedCategory (exampleState ''contain'' ''Governance'')
      \<notin> set (map category (filteredCategories (exampleState ''contain'' ''Governance'')))
   \<and> selectedCategory (watchEffect (exampleState ''contain'' ''Governance'')) = ''Incident Response''
   \<and> selectedCategory (watchEffect (exampleState ''zzz-no-match'' ''Governance'')) = []
   \<and> selectedCategory (watchEffect (exampleState ''contain'' ''Incident Response''))
       = ''Incident Response''"
proof -
  have a: "selectedCategory (exampleState ''contain'' ''Governance'')
      \<notin> set (map category (filteredCategories (exampleState ''contain'' ''Governance'')))"
    by code_simp
  have b: "filteredCategories (exampleState ''contain'' ''Governance'') \<noteq> []"
    by code_simp
  have c: "category (hd (filteredCategories (exampleState ''contain'' ''Governance'')))
       = ''Incident Response''"
    by code_simp
  have d: "selectedCategory (exampleState ''zzz-no-match'' ''Governance'')
      \<notin> set (map category (filteredCategories (exampleState ''zzz-no-match'' ''Governance'')))"
    "filteredCategories (exampleState ''zzz-no-match'' ''Governance'') = []"
    by code_simp+
  have e: "selectedCategory (exampleState ''contain'' ''Incident Response'')
      \<in> set (map category (filteredCategories (exampleState ''contain'' ''Incident Response'')))"
    "selectedCategory (exampleState ''contain'' ''Incident Response'') = ''Incident Response''"
    by code_simp+
  note t1 = watchEffect_spec [of "exampleState ''contain'' ''Governance''"]
  note t2 = watchEffect_spec [of "exampleState ''zzz-no-match'' ''Governance''"]
  note t3 = watchEffect_spec [of "exampleState ''contain'' ''Incident Response''"]
  from t1 a b have "selectedCategory (watchEffect (exampleState ''contain'' ''Governance''))
      = category (hd (filteredCategories (exampleState ''contain'' ''Governance'')))"
    by (elim conjE) (rule conjunct1, elim impE)
  from this c have g1: "selectedCategory (watchEffect (exampleState ''contain'' ''Governance'')) = ''Incident Response''"
    by (rule trans)
  from t2 [THEN conjunct1] d
  have g2: "selectedCategory (watchEffect (exampleState ''zzz-no-match'' ''Governance'')) = []"
    by simp
  from t3 [THEN conjunct1] e
  have g3: "selectedCategory (watchEffect (exampleState ''contain'' ''Incident Response''))
       = ''Incident Response''"
    by simp
  from a g1 g2 g3 show ?thesis by (intro conjI)
qed

section \<open>Matching and normalisation\<close>

text \<open>
  C3. For every record and query, \<open>matchesSearch\<close> holds if and only if the query is
  empty or the normalised query occurs as a contiguous run in the normalised value of
  one of the nine fields MetricTitle, MetricDescription, Category, SubCategory,
  ReportPeriod, Target, Comment, Contributor and Source. The fields enter as a set, so
  their order has no part in the result.
\<close>

theorem matchesSearch_spec:
  "matchesSearch m q \<longleftrightarrow>
     q = [] \<or>
     (\<exists>f \<in> {K_MetricTitle, K_MetricDescription, K_Category, K_SubCategory, K_ReportPeriod,
              K_Target, K_Comment, K_Contributor, K_Source}.
        \<exists>ps ss. toComparable (getField m f) = ps @ toComparable (JString q) @ ss)"
proof (cases "q = []")
  case True
  then show ?thesis by (simp add: matchesSearch_def)
next
  case False
  have n: "toComparable (JString q) = toLowerCase q" by (simp add: toComparable_def)
  have "matchesSearch m q \<longleftrightarrow>
          (\<exists>f \<in> set searchableFields. str_includes (toComparable (getField m f)) (toLowerCase q))"
    using False by (simp add: matchesSearch_def list_ex_iff)
  also have "\<dots> \<longleftrightarrow>
          (\<exists>f \<in> set searchableFields. \<exists>ps ss. toComparable (getField m f) = ps @ toLowerCase q @ ss)"
    by (simp only: str_includes_iff)
  finally show ?thesis using False
    by (simp only: n searchableFields_def list.set) simp
qed

text \<open>
  C5 as stated fails: \<open>toComparable\<close> of the boolean \<open>true\<close>, which is not a string, is the string
  \<open>true\<close> and not the empty string.
\<close>

theorem toComparable_non_string_counterexample:
  "typeof (JBoolean True) \<noteq> ''string'' \<and> toComparable (JBoolean True) = ''true''
   \<and> toComparable (JBoolean True) \<noteq> []"
  by (simp add: toComparable_def toLowerCase_def toLowerCaseChar_def)

text \<open>
  C5, amended. For every input value, \<open>toComparable\<close> lower-cases a string, gives
  the empty string for \<open>null\<close> and \<open>undefined\<close>, and converts every other value, a
  boolean, a number, an array or an object, with \<open>String\<close> and lower-cases the result:
  \<open>true\<close> gives \<open>true\<close>, 42 gives \<open>42\<close>, 1e21 gives \<open>1e+21\<close>, an array gives its
  elements joined by commas, which is the empty string for the empty array, and a
  plain object gives \<open>[object object]\<close>.
\<close>

theorem toComparable_spec:
  "toComparable v =
     (case v of
        JString s \<Rightarrow> toLowerCase s
      | JUndefined \<Rightarrow> []
      | JNull \<Rightarrow> []
      | _ \<Rightarrow> toLowerCase (String_js v))
   \<and> toComparable (JBoolean True) = ''true''
   \<and> toComparable (JNumber (NumFinite False 42 2)) = ''42''
   \<and> toComparable (JNumber (NumFinite False 1 22)) = ''1e+21''
   \<and> toComparable (JArray [JString ''A'', JNull, JNumber (NumFinite False 5 0)]) = ''a,,0.5''
   \<and> toComparable (JArray []) = []
   \<and> toComparable JObject = ''[object object]''"
  (is "?general \<and> ?true \<and> ?int \<and> ?large \<and> ?array \<and> ?empty \<and> ?object")
proof -
  have general: ?general
    by (cases v) (simp_all add: toComparable_def del: String_js.simps)
  have true: ?true and int: ?int and large: ?large and array: ?array and empty: ?empty
    and object: ?object
    by code_simp+
  from general true int large array empty object show ?thesis by (intro conjI)
qed

section \<open>Hydration and the loaded catalog\<close>

text \<open>
  C4 as stated fails: a record whose SubCategory is missing is hydrated with SubCategory \<open>null\<close>, not
  with the empty string.
\<close>

theorem hydrateMetric_SubCategory_counterexample:
  "SubCategory absentRecord = JUndefined
   \<and> SubCategory (hydrateMetric absentRecord ''governance'' 0) = JNull
   \<and> SubCategory (hydrateMetric absentRecord ''governance'' 0) \<noteq> JString []"
  by (simp add: absentRecord_def hydrateMetric_def nullishCoalesce_def)

text \<open>
  C4, amended. For every raw record, slug and position, each of ReportPeriod, Target,
  Comment, Contributor, Source, Category, MetricTitle and MetricDescription that is
  missing or \<open>null\<close> in the input is the empty string in the hydrated record, and a
  missing or \<open>null\<close> SubCategory is \<open>null\<close>. No field of the hydrated record other than
  SubCategory is \<open>null\<close> or \<open>undefined\<close>, and SubCategory is never \<open>undefined\<close>.
\<close>

theorem hydrateMetric_defaults:
  "(ReportPeriod raw = JNull \<or> ReportPeriod raw = JUndefined
      \<longrightarrow> ReportPeriod (hydrateMetric raw slg i) = JString [])
   \<and> (Target raw = JNull \<or> Target raw = JUndefined
      \<longrightarrow> Target (hydrateMetric raw slg i) = JString [])
   \<and> (Comment raw = JNull \<or> Comment raw = JUndefined
      \<longrightarrow> Comment (hydrateMetric raw slg i) = JString [])
   \<and> (Contributor raw = JNull \<or> Contributor raw = JUndefined
      \<longrightarrow> Contributor (hydrateMetric raw slg i) = JString [])
   \<and> (Source raw = JNull \<or> Source raw = JUndefined
      \<longrightarrow> Source (hydrateMetric raw slg i) = JString [])
   \<and> (Category raw = JNull \<or> Category raw = JUndefined
      \<longrightarrow> Category (hydrateMetric raw slg i) = JString [])
   \<and> (MetricTitle raw = JNull \<or> MetricTitle raw = JUndefined
      \<longrightarrow> MetricTitle (hydrateMetric raw slg i) = JString [])
   \<and> (MetricDescription raw = JNull \<or> MetricDescription raw = JUndefined
      \<longrightarrow> MetricDescription (hydrateMetric raw slg i) = JString [])
   \<and> (SubCategory raw = JNull \<or> SubCategory raw = JUndefined
      \<longrightarrow> SubCategory (hydrateMetric raw slg i) = JNull)
   \<and> (\<forall>k \<in> {K_id, K_Category, K_MetricTitle, K_MetricDescription, K_ReportPeriod, K_Target,
              K_Comment, K_Contributor, K_Source}.
         getField (hydrateMetric raw slg i) k \<noteq> JNull
         \<and> getField (hydrateMetric raw slg i) k \<noteq> JUndefined)
   \<and> SubCategory (hydrateMetric raw slg i) \<noteq> JUndefined"
  by (auto simp: hydrateMetric_def nullishCoalesce_cases nullishCoalesce_string
      nullishCoalesce_not_undefined)

text \<open>C4, amended, on the record with every property missing or \<open>null\<close>.\<close>

theorem hydrateMetric_defaults_witness:
  "ReportPeriod (hydrateMetric absentRecord ''governance'' 0) = JString []
   \<and> Target (hydrateMetric absentRecord ''governance'' 0) = JString []
   \<and> Comment (hydrateMetric absentRecord ''governance'' 0) = JString []
   \<and> Contributor (hydrateMetric absentRecord ''governance'' 0) = JString []
   \<and> Source (hydrateMetric absentRecord ''governance'' 0) = JString []
   \<and> SubCategory (hydrateMetric absentRecord ''governance'' 0) = JNull
   \<and> getField (hydrateMetric absentRecord ''governance'' 0) K_id \<noteq> JNull"
  using hydrateMetric_defaults [of absentRecord "''governance''" 0]
  by (simp add: absentRecord_def)

text \<open>
  C8. For every manifest with pairwise distinct slugs and every dictionary of record
  sources, the record at position \<open>i\<close> of a loaded category is the hydration of the
  \<open>i\<close>-th raw record of its source, its id is the category's slug, a hyphen and the
  decimal numeral of \<open>i\<close>, and the ids of all records of the catalog are pairwise
  distinct.
\<close>

theorem loaded_ids_unique:
  assumes "distinct (map slug metricsIndex)"
  shows "(\<forall>k < length metricsIndex. \<forall>i < length (items (initialCategories metricsIndex modules ! k)).
            items (initialCategories metricsIndex modules ! k) ! i =
              hydrateMetric
                ((case modules (moduleKey (slug (metricsIndex ! k))) of None \<Rightarrow> [] | Some d \<Rightarrow> d) ! i)
                (slug (metricsIndex ! k)) i
            \<and> id_m (items (initialCategories metricsIndex modules ! k) ! i) =
                slug (initialCategories metricsIndex modules ! k) @ ''-'' @ numberToString i)
         \<and> distinct (map id_m (allMetrics (initialState metricsIndex modules)))"
proof -
  have "distinct (map id_m (allMetrics (initialState metricsIndex modules)))"
    using distinct_ids_categories [OF assms, of modules]
    by (simp add: allMetrics_def initialState_def initialCategories_def Let_def)
  moreover have "items (initialCategories metricsIndex modules ! k) ! i =
              hydrateMetric
                ((case modules (moduleKey (slug (metricsIndex ! k))) of None \<Rightarrow> [] | Some d \<Rightarrow> d) ! i)
                (slug (metricsIndex ! k)) i
            \<and> id_m (items (initialCategories metricsIndex modules ! k) ! i) =
                slug (initialCategories metricsIndex modules ! k) @ ''-'' @ numberToString i"
    if "k < length metricsIndex" "i < length (items (initialCategories metricsIndex modules ! k))"
    for k i
    using that
    by (simp add: initialCategories_def nth_items_loadCategory id_hydrateMetric meta_loadCategory)
  ultimately show ?thesis by blast
qed

text \<open>C8 on the example manifest: three ids, all different.\<close>

theorem loaded_ids_unique_witness:
  "distinct (map slug exampleIndex)
   \<and> map id_m (allMetrics (initialState exampleIndex exampleModules)) =
       [''governance-0'', ''governance-1'', ''incident-response-0'']
   \<and> distinct (map id_m (allMetrics (initialState exampleIndex exampleModules)))
   \<and> id_m (items (initialCategories exampleIndex exampleModules ! 0) ! 1) =
       slug (initialCategories exampleIndex exampleModules ! 0) @ ''-'' @ numberToString 1"
proof -
  have d: "distinct (map slug exampleIndex)" by code_simp
  have l: "(0::nat) < length exampleIndex"
    "(1::nat) < length (items (initialCategories exampleIndex exampleModules ! 0))"
    by code_simp+
  have e: "map id_m (allMetrics (initialState exampleIndex exampleModules)) =
       [''governance-0'', ''governance-1'', ''incident-response-0'']"
    by code_simp
  from loaded_ids_unique [OF d, of exampleModules] l d e show ?thesis by blast
qed

text \<open>
  C9. The loader returns one category per manifest entry, in order, with the entry's
  display name and slug. An entry whose slug has no record source gets the empty
  list of items, and the \<open>count\<close> of every loaded category is the length of its items,
  whatever count the manifest declares.
\<close>

theorem missing_source_is_empty:
  "length (initialCategories metricsIndex modules) = length metricsIndex
   \<and> (\<forall>k < length metricsIndex.
         category (initialCategories metricsIndex modules ! k) = category (metricsIndex ! k)
         \<and> slug (initialCategories metricsIndex modules ! k) = slug (metricsIndex ! k)
         \<and> (modules (moduleKey (slug (metricsIndex ! k))) = None
              \<longrightarrow> items (initialCategories metricsIndex modules ! k) = [])
         \<and> count (initialCategories metricsIndex modules ! k) =
              int (length (items (initialCategories metricsIndex modules ! k))))"
  by (simp add: initialCategories_def meta_loadCategory items_loadCategory)

text \<open>
  C9 on the example manifest: Threat Hunting is declared with seven records and has no file: it loads with no
  items and count 0.
\<close>

theorem missing_source_is_empty_witness:
  "exampleModules (moduleKey (slug (exampleIndex ! 2))) = None
   \<and> count (exampleIndex ! 2) = 7
   \<and> items (initialCategories exampleIndex exampleModules ! 2) = []
   \<and> count (initialCategories exampleIndex exampleModules ! 2) = 0
   \<and> count (initialCategories exampleIndex exampleModules ! 0) = 2"
proof -
  have n: "exampleModules (moduleKey (slug (exampleIndex ! 2))) = None" by code_simp
  have c: "count (exampleIndex ! 2) = 7" by code_simp
  have l: "(2::nat) < length exampleIndex" "(0::nat) < length exampleIndex" by code_simp+
  have i: "length (items (initialCategories exampleIndex exampleModules ! 0)) = 2" by code_simp
  from missing_source_is_empty [of exampleIndex exampleModules] n c l i show ?thesis
    by simp
qed

section \<open>The detail rows\<close>



section \<open>Selection by display name\<close>

text \<open>
  C10. Selection works on display names, not slugs. When two categories have the
  selected display name and the trimmed query is empty, \<open>displayMetrics\<close> is the items
  of the first of them in catalog order. The effect keeps the state when some visible
  category has the selected name, replaces the selection when none has, and its
  result depends on the visible categories through their display names only.
\<close>

theorem selection_by_display_name:
  "(trim (searchQuery st) = [] \<and> i < j \<and> j < length (categories st)
      \<and> category (categories st ! i) = selectedCategory st
      \<and> category (categories st ! j) = selectedCategory st
      \<and> (\<forall>k < i. category (categories st ! k) \<noteq> selectedCategory st)
      \<longrightarrow> displayMetrics st = items (categories st ! i))
   \<and> ((\<exists>c \<in> set (filteredCategories st). category c = selectedCategory st)
        \<longrightarrow> watchEffect st = st)
   \<and> ((\<forall>c \<in> set (filteredCategories st). category c \<noteq> selectedCategory st)
        \<longrightarrow> selectedCategory (watchEffect st)
            = (case filteredCategories st of [] \<Rightarrow> [] | c # _ \<Rightarrow> category c))
   \<and> (map category (filteredCategories st') = map category (filteredCategories st)
        \<and> selectedCategory st' = selectedCategory st
        \<longrightarrow> selectedCategory (watchEffect st') = selectedCategory (watchEffect st))"
  (is "?display \<and> ?kept \<and> ?replaced \<and> ?names")
proof -
  have display: ?display
  proof (intro impI, elim conjE)
    assume q: "trim (searchQuery st) = []" and ij: "i < j" "j < length (categories st)"
      and i: "category (categories st ! i) = selectedCategory st"
      and first: "\<forall>k < i. category (categories st ! k) \<noteq> selectedCategory st"
    from ij have "i < length (categories st)" by simp
    with i first have "find (\<lambda>c. category c = selectedCategory st) (categories st)
        = Some (categories st ! i)"
      by (intro find_first_index) simp_all
    with q show "displayMetrics st = items (categories st ! i)"
      by (simp add: displayMetrics_def toLowerCase_Nil_iff)
  qed
  have kept: ?kept
    by (simp add: watchEffect_def list_ex_iff)
  have replaced: ?replaced
    by (simp add: watchEffect_def list_ex_iff)
  have names: ?names
    by (simp add: selected_watchEffect split: list.splits)
  from display kept replaced names show ?thesis by (intro conjI)
qed

text \<open>
  C10 on the catalog with two categories named Governance: the empty query shows the
  records of the first, and under the query \<open>contain\<close> the selection stays although
  only the second is visible.
\<close>

theorem selection_by_display_name_witness:
  "category (categories (duplicateState [] ''Governance'') ! 0)
     = category (categories (duplicateState [] ''Governance'') ! 1)
   \<and> slug (categories (duplicateState [] ''Governance'') ! 0) = ''governance''
   \<and> slug (categories (duplicateState [] ''Governance'') ! 1) = ''incident-response''
   \<and> displayMetrics (duplicateState [] ''Governance'')
       = items (categories (duplicateState [] ''Governance'') ! 0)
   \<and> map id_m (items (categories (duplicateState [] ''Governance'') ! 0))
       = [''governance-0'', ''governance-1'']
   \<and> map slug (filteredCategories (duplicateState ''contain'' ''Governance''))
       = [''incident-response'']
   \<and> watchEffect (duplicateState ''contain'' ''Governance'')
       = duplicateState ''contain'' ''Governance''"
proof -
  have q: "trim (searchQuery (duplicateState [] ''Governance'')) = []" by code_simp
  have ij: "(0::nat) < 1" "1 < length (categories (duplicateState [] ''Governance''))"
    by code_simp+
  have n0: "category (categories (duplicateState [] ''Governance'') ! 0)
      = selectedCategory (duplicateState [] ''Governance'')"
    and n1: "category (categories (duplicateState [] ''Governance'') ! 1)
      = selectedCategory (duplicateState [] ''Governance'')"
    by code_simp+
  have first: "\<forall>k < (0::nat). category (categories (duplicateState [] ''Governance'') ! k)
      \<noteq> selectedCategory (duplicateState [] ''Governance'')"
    by simp
  have s0: "slug (categories (duplicateState [] ''Governance'') ! 0) = ''governance''"
    and s1: "slug (categories (duplicateState [] ''Governance'') ! 1) = ''incident-response''"
    and ids: "map id_m (items (categories (duplicateState [] ''Governance'') ! 0))
       = [''governance-0'', ''governance-1'']"
    and vis: "map slug (filteredCategories (duplicateState ''contain'' ''Governance''))
       = [''incident-response'']"
    by code_simp+
  have ex: "\<exists>c \<in> set (filteredCategories (duplicateState ''contain'' ''Governance'')).
      category c = selectedCategory (duplicateState ''contain'' ''Governance'')"
    by code_simp
  note t = selection_by_display_name [of "duplicateState [] ''Governance''" 0 1]
  note u = selection_by_display_name [of "duplicateState ''contain'' ''Governance''"]
  have d: "displayMetrics (duplicateState [] ''Governance'')
       = items (categories (duplicateState [] ''Governance'') ! 0)"
    by (rule t [THEN conjunct1, rule_format]) (intro conjI q ij n0 n1 first)
  have w: "watchEffect (duplicateState ''contain'' ''Governance'')
       = duplicateState ''contain'' ''Governance''"
    by (rule u [THEN conjunct2, THEN conjunct1, rule_format]) (rule ex)
  from n0 n1 have same: "category (categories (duplicateState [] ''Governance'') ! 0)
     = category (categories (duplicateState [] ''Governance'') ! 1)"
    by (rule trans [OF _ sym])
  show ?thesis by (intro conjI) (rule same s0 s1 d ids vis w)+
qed

end
